theory Spec2Isabelle
  imports Complex_Main "HOL-Library.Word"
begin

section \<open>Strings and decoded JSON values\<close>

text \<open>
  A JavaScript string is a sequence of UTF-16 code units, so a string of the parser is a
  list of 16-bit words. \<open>ustr\<close> embeds an Isabelle string literal (one code unit per
  character).
\<close>

type_synonym jsstring = "16 word list"

definition ustr :: "string \<Rightarrow> jsstring" where
  "ustr s = map of_char s"

text \<open>
  \<open>String.prototype.trim\<close> removes the code units of the ECMAScript productions
  WhiteSpace and LineTerminator from both ends: U+0009 to U+000D, U+0020, U+00A0, U+1680,
  U+2000 to U+200A, U+2028, U+2029, U+202F, U+205F, U+3000 and U+FEFF.
\<close>

definition isWhiteSpace :: "16 word \<Rightarrow> bool" where
  "isWhiteSpace c =
     ((9 \<le> c \<and> c \<le> 13) \<or> c = 32 \<or> c = 160 \<or> c = 5760 \<or> (8192 \<le> c \<and> c \<le> 8202) \<or>
      c = 8232 \<or> c = 8233 \<or> c = 8239 \<or> c = 8287 \<or> c = 12288 \<or> c = 65279)"

definition trim :: "jsstring \<Rightarrow> jsstring" where
  "trim s = rev (dropWhile isWhiteSpace (rev (dropWhile isWhiteSpace s)))"

text \<open>
  A JavaScript number is a double. The parser only compares numbers with zero and tests
  their truthiness, so a number is a finite rational, an infinity or NaN.
\<close>

datatype jsnum = Finite rat | PosInfinity | NegInfinity | NaN

fun num_gt_zero :: "jsnum \<Rightarrow> bool" where
  "num_gt_zero (Finite q) = (0 < q)"
| "num_gt_zero PosInfinity = True"
| "num_gt_zero NegInfinity = False"
| "num_gt_zero NaN = False"

fun num_truthy :: "jsnum \<Rightarrow> bool" where
  "num_truthy (Finite q) = (q \<noteq> 0)"
| "num_truthy PosInfinity = True"
| "num_truthy NegInfinity = True"
| "num_truthy NaN = False"

text \<open>
  The values the parser inspects: what \<open>JSON.parse\<close> returns, and \<open>Undefined\<close> for a
  property that is absent. Reading property \<open>k\<close> of an object \<open>Object m\<close> gives \<open>m k\<close>.
\<close>

datatype jsvalue =
    Undefined
  | Null
  | Boolean bool
  | Number jsnum
  | String jsstring
  | Array "jsvalue list"
  | Object "jsstring \<Rightarrow> jsvalue"

fun typeof :: "jsvalue \<Rightarrow> string" where
  "typeof Undefined = ''undefined''"
| "typeof Null = ''object''"
| "typeof (Boolean b) = ''boolean''"
| "typeof (Number n) = ''number''"
| "typeof (String s) = ''string''"
| "typeof (Array xs) = ''object''"
| "typeof (Object m) = ''object''"

fun is_null :: "jsvalue \<Rightarrow> bool" where
  "is_null Null = True"
| "is_null _ = False"

fun isArray :: "jsvalue \<Rightarrow> bool" where
  "isArray (Array xs) = True"
| "isArray _ = False"

fun getp :: "jsvalue \<Rightarrow> jsstring \<Rightarrow> jsvalue" where
  "getp (Object m) k = m k"
| "getp _ k = Undefined"

fun truthy :: "jsvalue \<Rightarrow> bool" where
  "truthy Undefined = False"
| "truthy Null = False"
| "truthy (Boolean b) = b"
| "truthy (Number n) = num_truthy n"
| "truthy (String s) = (s \<noteq> [])"
| "truthy (Array xs) = True"
| "truthy (Object m) = True"

text \<open>\<open>v === "..."\<close> and \<open>v === true\<close>: strict equality with a string or with \<open>true\<close>.\<close>

fun strict_eq_string :: "jsvalue \<Rightarrow> jsstring \<Rightarrow> bool" where
  "strict_eq_string (String s) t = (s = t)"
| "strict_eq_string _ t = False"

fun strict_eq_true :: "jsvalue \<Rightarrow> bool" where
  "strict_eq_true (Boolean b) = b"
| "strict_eq_true _ = False"

text \<open>The string behind a value whose \<open>typeof\<close> is \<open>"string"\<close>.\<close>

fun string_of :: "jsvalue \<Rightarrow> jsstring" where
  "string_of (String s) = s"
| "string_of _ = []"

text \<open>An object literal, for concrete inputs: the listed properties (no key is listed twice).\<close>

definition obj :: "(string \<times> jsvalue) list \<Rightarrow> jsvalue" where
  "obj kvs = Object (\<lambda>k. case map_of (map (\<lambda>(n, v). (ustr n, v)) kvs) k of
                            None \<Rightarrow> Undefined | Some v \<Rightarrow> v)"

section \<open>The parser\<close>

subsection \<open>isRecord and toUsage\<close>

definition isRecord :: "jsvalue \<Rightarrow> bool" where
  "isRecord v = (typeof v = ''object'' \<and> \<not> is_null v \<and> \<not> isArray v)"

record CliUsage =
  input :: "jsnum option"
  output_u :: "jsnum option"
  cacheRead :: "jsnum option"
  cacheWrite :: "jsnum option"
  total_u :: "jsnum option"

text \<open>\<open>pick\<close>: the property when it is a number greater than zero, otherwise undefined.\<close>

definition pick :: "jsvalue \<Rightarrow> string \<Rightarrow> jsnum option" where
  "pick raw key =
     (case getp raw (ustr key) of
        Number n \<Rightarrow> (if num_gt_zero n then Some n else None)
      | _ \<Rightarrow> None)"

text \<open>\<open>a ?? b\<close> on an optional number.\<close>

fun nullish :: "'a option \<Rightarrow> 'a option \<Rightarrow> 'a option" where
  "nullish (Some x) b = Some x"
| "nullish None b = b"

text \<open>\<open>!x\<close> on an optional number: undefined, zero and NaN are falsy.\<close>

fun not_num :: "jsnum option \<Rightarrow> bool" where
  "not_num None = True"
| "not_num (Some n) = (\<not> num_truthy n)"

definition toUsage :: "jsvalue \<Rightarrow> CliUsage option" where
  "toUsage raw =
     (let inp = nullish (pick raw ''input_tokens'') (pick raw ''inputTokens'');
          out = nullish (pick raw ''output_tokens'') (pick raw ''outputTokens'');
          cr = nullish (pick raw ''cache_read_input_tokens'')
                 (nullish (pick raw ''cached_input_tokens'') (pick raw ''cacheRead''));
          cw = nullish (pick raw ''cache_write_input_tokens'') (pick raw ''cacheWrite'');
          tot = nullish (pick raw ''total_tokens'') (pick raw ''total'')
      in if not_num inp \<and> not_num out \<and> not_num cr \<and> not_num cw \<and> not_num tot
         then None
         else Some \<lparr>input = inp, output_u = out, cacheRead = cr, cacheWrite = cw, total_u = tot\<rparr>)"

subsection \<open>Observers and parser state\<close>

text \<open>
  \<open>StreamJsonCallbacks\<close>: every observer is optional, so the record says which ones are
  installed. A call \<open>callbacks.onX?.(v)\<close> is recorded in the trace \<open>calls\<close> of the state
  when the observer is installed and does nothing otherwise. Observers return normally and
  do not call back into the parser.
\<close>

record StreamJsonCallbacks =
  onText :: bool
  onToolUse :: bool
  onSessionId :: bool
  onUsage :: bool
  onError :: bool

datatype call =
    OnText jsstring
  | OnToolUse jsstring
  | OnSessionId jsstring
  | OnUsage CliUsage
  | OnError jsstring

fun installed :: "StreamJsonCallbacks \<Rightarrow> call \<Rightarrow> bool" where
  "installed cb (OnText t) = onText cb"
| "installed cb (OnToolUse n) = onToolUse cb"
| "installed cb (OnSessionId i) = onSessionId cb"
| "installed cb (OnUsage u) = onUsage cb"
| "installed cb (OnError m) = onError cb"

text \<open>
  The closure variables of \<open>createStreamJsonParser\<close>: \<open>buffer\<close>, \<open>collectedTextParts\<close>,
  \<open>sessionId\<close> and \<open>usage\<close>, and the trace of observer calls made so far.
\<close>

record parser =
  buffer :: jsstring
  collectedTextParts :: "jsstring list"
  sessionId :: "jsstring option"
  usage :: "CliUsage option"
  calls :: "call list"

definition createStreamJsonParser :: parser where
  "createStreamJsonParser =
     \<lparr>buffer = [], collectedTextParts = [], sessionId = None, usage = None, calls = []\<rparr>"

definition notify :: "StreamJsonCallbacks \<Rightarrow> call \<Rightarrow> parser \<Rightarrow> parser" where
  "notify cb c s = (if installed cb c then s\<lparr>calls := calls s @ [c]\<rparr> else s)"

text \<open>\<open>!sessionId\<close>: undefined and the empty string are falsy.\<close>

fun not_str :: "jsstring option \<Rightarrow> bool" where
  "not_str None = True"
| "not_str (Some i) = (i = [])"

subsection \<open>processLine\<close>

text \<open>The four steps of the \<open>result\<close> branch, in the order of the source.\<close>

definition result_sessionId :: "StreamJsonCallbacks \<Rightarrow> jsvalue \<Rightarrow> parser \<Rightarrow> parser" where
  "result_sessionId cb parsed s =
     (let sid = getp parsed (ustr ''session_id'')
      in if not_str (sessionId s) \<and> typeof sid = ''string'' \<and> trim (string_of sid) \<noteq> []
         then notify cb (OnSessionId (trim (string_of sid)))
                (s\<lparr>sessionId := Some (trim (string_of sid))\<rparr>)
         else s)"

definition result_usage :: "StreamJsonCallbacks \<Rightarrow> jsvalue \<Rightarrow> parser \<Rightarrow> parser" where
  "result_usage cb parsed s =
     (if isRecord (getp parsed (ustr ''usage''))
      then (let s1 = s\<lparr>usage := (case toUsage (getp parsed (ustr ''usage'')) of
                                    Some u \<Rightarrow> Some u
                                  | None \<Rightarrow> usage s)\<rparr>
            in case usage s1 of
                 Some u \<Rightarrow> notify cb (OnUsage u) s1
               | None \<Rightarrow> s1)
      else s)"

definition result_fallback :: "StreamJsonCallbacks \<Rightarrow> jsvalue \<Rightarrow> parser \<Rightarrow> parser" where
  "result_fallback cb parsed s =
     (let res = getp parsed (ustr ''result'')
      in if length (collectedTextParts s) = 0 \<and> typeof res = ''string'' \<and>
            trim (string_of res) \<noteq> []
         then notify cb (OnText (string_of res))
                (s\<lparr>collectedTextParts := collectedTextParts s @ [string_of res]\<rparr>)
         else s)"

definition result_error :: "StreamJsonCallbacks \<Rightarrow> jsvalue \<Rightarrow> parser \<Rightarrow> parser" where
  "result_error cb parsed s =
     (let res = getp parsed (ustr ''result'')
      in if strict_eq_true (getp parsed (ustr ''is_error'')) \<and> typeof res = ''string''
         then notify cb (OnError (string_of res)) s
         else s)"

text \<open>\<open>typeof parsed.type === "string" ? parsed.type : ""\<close>\<close>

definition event_type :: "jsvalue \<Rightarrow> jsstring" where
  "event_type parsed =
     (if typeof (getp parsed (ustr ''type'')) = ''string''
      then string_of (getp parsed (ustr ''type'')) else [])"

definition result_branch :: "StreamJsonCallbacks \<Rightarrow> jsvalue \<Rightarrow> parser \<Rightarrow> parser" where
  "result_branch cb parsed s =
     result_error cb parsed
       (result_fallback cb parsed (result_usage cb parsed (result_sessionId cb parsed s)))"

text \<open>The bodies of the three branches before it.\<close>

definition delta_branch :: "StreamJsonCallbacks \<Rightarrow> jsvalue \<Rightarrow> parser \<Rightarrow> parser" where
  "delta_branch cb parsed s =
     (let delta = getp parsed (ustr ''delta'')
      in if strict_eq_string (getp delta (ustr ''type'')) (ustr ''text_delta'') \<and>
            typeof (getp delta (ustr ''text'')) = ''string''
         then notify cb (OnText (string_of (getp delta (ustr ''text''))))
                (s\<lparr>collectedTextParts :=
                     collectedTextParts s @ [string_of (getp delta (ustr ''text''))]\<rparr>)
         else s)"

definition block_start_branch :: "StreamJsonCallbacks \<Rightarrow> jsvalue \<Rightarrow> parser \<Rightarrow> parser" where
  "block_start_branch cb parsed s =
     (let block = getp parsed (ustr ''content_block'')
      in if strict_eq_string (getp block (ustr ''type'')) (ustr ''tool_use'') \<and>
            typeof (getp block (ustr ''name'')) = ''string''
         then notify cb (OnToolUse (string_of (getp block (ustr ''name'')))) s
         else s)"

definition system_branch :: "StreamJsonCallbacks \<Rightarrow> jsvalue \<Rightarrow> parser \<Rightarrow> parser" where
  "system_branch cb parsed s =
     (let sid = getp parsed (ustr ''session_id'')
      in if typeof sid = ''string'' \<and> trim (string_of sid) \<noteq> []
         then notify cb (OnSessionId (trim (string_of sid)))
                (s\<lparr>sessionId := Some (trim (string_of sid))\<rparr>)
         else s)"

text \<open>
  The dispatch on a decoded object. Each branch returns, so a later branch is reached only
  when the earlier conditions are false.
\<close>

definition dispatch :: "StreamJsonCallbacks \<Rightarrow> jsvalue \<Rightarrow> parser \<Rightarrow> parser" where
  "dispatch cb parsed s =
     (let ty = event_type parsed
      in if ty = ustr ''content_block_delta'' \<and> isRecord (getp parsed (ustr ''delta''))
         then delta_branch cb parsed s
         else if ty = ustr ''content_block_start'' \<and> isRecord (getp parsed (ustr ''content_block''))
         then block_start_branch cb parsed s
         else if ty = ustr ''system'' \<and> not_str (sessionId s)
         then system_branch cb parsed s
         else if ty = ustr ''result''
         then result_branch cb parsed s
         else s)"

text \<open>
  \<open>JSON.parse\<close> is a built-in of the platform: the parser takes it as the parameter
  \<open>parse\<close>, which gives \<open>None\<close> where \<open>JSON.parse\<close> throws (the \<open>catch\<close> returns).
\<close>

definition processLine ::
  "(jsstring \<Rightarrow> jsvalue option) \<Rightarrow> StreamJsonCallbacks \<Rightarrow> jsstring \<Rightarrow> parser \<Rightarrow> parser" where
  "processLine parse cb line s =
     (let trimmed = trim line
      in if trimmed = [] then s
         else case parse trimmed of
                None \<Rightarrow> s
              | Some parsed \<Rightarrow> if \<not> isRecord parsed then s else dispatch cb parsed s)"

subsection \<open>feed, flush and the queries\<close>

text \<open>\<open>s.split(sep)\<close> for a separator of one code unit: it never returns the empty array.\<close>

fun split :: "'a \<Rightarrow> 'a list \<Rightarrow> 'a list list" where
  "split sep [] = [[]]"
| "split sep (c # cs) =
     (if c = sep then [] # split sep cs
      else (case split sep cs of
              [] \<Rightarrow> [[c]]
            | l # ls \<Rightarrow> (c # l) # ls))"

definition newline :: "16 word" where
  "newline = 10"

text \<open>\<open>lines.pop() ?? ""\<close> with the array that is left.\<close>

definition pop :: "jsstring list \<Rightarrow> jsstring \<times> jsstring list" where
  "pop ls = (if ls = [] then ([], []) else (last ls, butlast ls))"

definition feed ::
  "(jsstring \<Rightarrow> jsvalue option) \<Rightarrow> StreamJsonCallbacks \<Rightarrow> jsstring \<Rightarrow> parser \<Rightarrow> parser" where
  "feed parse cb chunk s =
     (let (rest, ls) = pop (split newline (buffer s @ chunk))
      in fold (processLine parse cb) ls (s\<lparr>buffer := rest\<rparr>))"

definition flush ::
  "(jsstring \<Rightarrow> jsvalue option) \<Rightarrow> StreamJsonCallbacks \<Rightarrow> parser \<Rightarrow> parser" where
  "flush parse cb s =
     (if trim (buffer s) \<noteq> []
      then (processLine parse cb (buffer s) s)\<lparr>buffer := []\<rparr>
      else s)"

definition getCollectedText :: "parser \<Rightarrow> jsstring" where
  "getCollectedText s = concat (collectedTextParts s)"

definition getSessionId :: "parser \<Rightarrow> jsstring option" where
  "getSessionId s = sessionId s"

definition getUsage :: "parser \<Rightarrow> CliUsage option" where
  "getUsage s = usage s"

subsection \<open>Driving a parser\<close>

text \<open>A caller uses a parser through \<open>feed\<close> and \<open>flush\<close>, in any order.\<close>

datatype op = Feed jsstring | Flush

fun step :: "(jsstring \<Rightarrow> jsvalue option) \<Rightarrow> StreamJsonCallbacks \<Rightarrow> op \<Rightarrow> parser \<Rightarrow> parser" where
  "step parse cb (Feed chunk) s = feed parse cb chunk s"
| "step parse cb Flush s = flush parse cb s"

definition run :: "(jsstring \<Rightarrow> jsvalue option) \<Rightarrow> StreamJsonCallbacks \<Rightarrow> op list \<Rightarrow> parser" where
  "run parse cb ops = fold (step parse cb) ops createStreamJsonParser"

section \<open>Vocabulary of the properties\<close>

text \<open>The arguments of the calls made to each observer, in order.\<close>

fun text_of :: "call \<Rightarrow> jsstring list" where
  "text_of (OnText t) = [t]"
| "text_of _ = []"

fun session_of :: "call \<Rightarrow> jsstring list" where
  "session_of (OnSessionId i) = [i]"
| "session_of _ = []"

fun usage_of :: "call \<Rightarrow> CliUsage list" where
  "usage_of (OnUsage u) = [u]"
| "usage_of _ = []"

fun error_of :: "call \<Rightarrow> jsstring list" where
  "error_of (OnError m) = [m]"
| "error_of _ = []"

definition text_calls :: "parser \<Rightarrow> jsstring list" where
  "text_calls s = concat (map text_of (calls s))"

definition session_calls :: "parser \<Rightarrow> jsstring list" where
  "session_calls s = concat (map session_of (calls s))"

definition usage_calls :: "parser \<Rightarrow> CliUsage list" where
  "usage_calls s = concat (map usage_of (calls s))"

definition error_calls :: "parser \<Rightarrow> jsstring list" where
  "error_calls s = concat (map error_of (calls s))"

text \<open>
  The event of a line: the object it decodes to, when the line is not blank, decodes, and
  decodes to an object.
\<close>

definition event :: "(jsstring \<Rightarrow> jsvalue option) \<Rightarrow> jsstring \<Rightarrow> jsvalue option" where
  "event parse line =
     (if trim line = [] then None
      else case parse (trim line) of
             None \<Rightarrow> None
           | Some v \<Rightarrow> if isRecord v then Some v else None)"

text \<open>The payload of a recognised text delta.\<close>

definition text_delta :: "jsvalue \<Rightarrow> jsstring option" where
  "text_delta v =
     (if event_type v = ustr ''content_block_delta'' \<and> isRecord (getp v (ustr ''delta'')) \<and>
         strict_eq_string (getp (getp v (ustr ''delta'')) (ustr ''type'')) (ustr ''text_delta'') \<and>
         typeof (getp (getp v (ustr ''delta'')) (ustr ''text'')) = ''string''
      then Some (string_of (getp (getp v (ustr ''delta'')) (ustr ''text'')))
      else None)"

text \<open>The result field of a result event when it is a string that is not blank.\<close>

definition fallback_text :: "jsvalue \<Rightarrow> jsstring option" where
  "fallback_text v =
     (if event_type v = ustr ''result'' \<and> typeof (getp v (ustr ''result'')) = ''string'' \<and>
         trim (string_of (getp v (ustr ''result''))) \<noteq> []
      then Some (string_of (getp v (ustr ''result'')))
      else None)"

text \<open>The result string of a result event whose error flag is the boolean \<open>true\<close>.\<close>

definition error_message :: "jsvalue \<Rightarrow> jsstring option" where
  "error_message v =
     (if event_type v = ustr ''result'' \<and> strict_eq_true (getp v (ustr ''is_error'')) \<and>
         typeof (getp v (ustr ''result'')) = ''string''
      then Some (string_of (getp v (ustr ''result'')))
      else None)"

text \<open>
  The trimmed session identifier of a system or result event, when the field is a string
  and the trimmed string is not empty.
\<close>

definition session_field :: "jsvalue \<Rightarrow> jsstring option" where
  "session_field v =
     (if (event_type v = ustr ''system'' \<or> event_type v = ustr ''result'') \<and>
         typeof (getp v (ustr ''session_id'')) = ''string'' \<and>
         trim (string_of (getp v (ustr ''session_id''))) \<noteq> []
      then Some (trim (string_of (getp v (ustr ''session_id''))))
      else None)"

text \<open>The usage object of a result event.\<close>

definition usage_object :: "jsvalue \<Rightarrow> jsvalue option" where
  "usage_object v =
     (if event_type v = ustr ''result'' \<and> isRecord (getp v (ustr ''usage''))
      then Some (getp v (ustr ''usage''))
      else None)"

text \<open>
  The text fragments an event adds: the payload of a text delta, or the result field of a
  result event when no fragment has been collected yet.
\<close>

definition new_text :: "jsvalue \<Rightarrow> bool \<Rightarrow> jsstring list" where
  "new_text v none_yet =
     (case text_delta v of
        Some t \<Rightarrow> [t]
      | None \<Rightarrow> (case fallback_text v of
                   Some r \<Rightarrow> (if none_yet then [r] else [])
                 | None \<Rightarrow> []))"

text \<open>
  The invariant of the session id: it is never the empty string, it is trimmed, and the
  session-id observer has been called with it, once, when the observer is installed.
\<close>

definition session_ok :: "StreamJsonCallbacks \<Rightarrow> parser \<Rightarrow> bool" where
  "session_ok cb s =
     (case sessionId s of
        None \<Rightarrow> session_calls s = []
      | Some i \<Rightarrow> i \<noteq> [] \<and> trim i = i \<and> \<not> isWhiteSpace (hd i) \<and> \<not> isWhiteSpace (last i) \<and>
                  session_calls s = (if onSessionId cb then [i] else []))"




subsection \<open>Usage conversion as the specification words it\<close>

text \<open>
  The first key of a priority list whose value is a number greater than zero; a key that
  is absent, not a number, zero or negative is skipped.
\<close>

fun first_positive :: "jsvalue \<Rightarrow> string list \<Rightarrow> jsnum option" where
  "first_positive raw [] = None"
| "first_positive raw (k # ks) =
     (case getp raw (ustr k) of
        Number n \<Rightarrow> (if num_gt_zero n then Some n else first_positive raw ks)
      | _ \<Rightarrow> first_positive raw ks)"

definition spec_toUsage :: "jsvalue \<Rightarrow> CliUsage option" where
  "spec_toUsage raw =
     (let inp = first_positive raw [''input_tokens'', ''inputTokens''];
          out = first_positive raw [''output_tokens'', ''outputTokens''];
          cr = first_positive raw [''cache_read_input_tokens'', ''cached_input_tokens'', ''cacheRead''];
          cw = first_positive raw [''cache_write_input_tokens'', ''cacheWrite''];
          tot = first_positive raw [''total_tokens'', ''total'']
      in if inp = None \<and> out = None \<and> cr = None \<and> cw = None \<and> tot = None
         then None
         else Some \<lparr>input = inp, output_u = out, cacheRead = cr, cacheWrite = cw, total_u = tot\<rparr>)"

section \<open>Concrete inputs\<close>

text \<open>
  Lines of a \<open>stream-json\<close> session, and a decoder that agrees with \<open>JSON.parse\<close> on
  them: it gives the listed value for the listed texts and fails on every other text (the
  one other text decoded below, \<open>{broken\<close>, is not JSON).
\<close>

definition init_line :: jsstring where
  \<open>init_line = ustr ''{"type":"system","subtype":"init","session_id":"from-init"}''\<close>

definition padded_init_line :: jsstring where
  \<open>padded_init_line = ustr ''{"type":"system","session_id":"  abc-123 "}''\<close>

definition delta_line :: jsstring where
  \<open>delta_line = ustr ''{"type":"content_block_delta","delta":{"type":"text_delta","text":"Hello"}}''\<close>

definition empty_delta_line :: jsstring where
  \<open>empty_delta_line = ustr ''{"type":"content_block_delta","delta":{"type":"text_delta","text":""}}''\<close>

definition result_line :: jsstring where
  \<open>result_line = ustr ''{"type":"result","session_id":"from-result","result":"done"}''\<close>

definition usage_line :: jsstring where
  \<open>usage_line = ustr ''{"type":"result","usage":{"input_tokens":50,"output_tokens":10}}''\<close>

definition zero_usage_line :: jsstring where
  \<open>zero_usage_line = ustr ''{"type":"result","usage":{"input_tokens":0}}''\<close>

definition error_line :: jsstring where
  \<open>error_line = ustr ''{"type":"result","is_error":true,"result":"Something went wrong"}''\<close>

definition flag_one_line :: jsstring where
  \<open>flag_one_line = ustr ''{"type":"result","is_error":1,"result":"boom"}''\<close>

definition array_line :: jsstring where
  \<open>array_line = ustr ''[1,2]''\<close>

definition demo_parse :: "jsstring \<Rightarrow> jsvalue option" where
  "demo_parse t =
     map_of
       [(init_line,
           obj [(''type'', String (ustr ''system'')), (''subtype'', String (ustr ''init'')),
                (''session_id'', String (ustr ''from-init''))]),
        (padded_init_line,
           obj [(''type'', String (ustr ''system'')),
                (''session_id'', String (ustr ''  abc-123 ''))]),
        (delta_line,
           obj [(''type'', String (ustr ''content_block_delta'')),
                (''delta'', obj [(''type'', String (ustr ''text_delta'')),
                                 (''text'', String (ustr ''Hello''))])]),
        (empty_delta_line,
           obj [(''type'', String (ustr ''content_block_delta'')),
                (''delta'', obj [(''type'', String (ustr ''text_delta'')),
                                 (''text'', String [])])]),
        (result_line,
           obj [(''type'', String (ustr ''result'')),
                (''session_id'', String (ustr ''from-result'')),
                (''result'', String (ustr ''done''))]),
        (usage_line,
           obj [(''type'', String (ustr ''result'')),
                (''usage'', obj [(''input_tokens'', Number (Finite 50)),
                                 (''output_tokens'', Number (Finite 10))])]),
        (zero_usage_line,
           obj [(''type'', String (ustr ''result'')),
                (''usage'', obj [(''input_tokens'', Number (Finite 0))])]),
        (error_line,
           obj [(''type'', String (ustr ''result'')), (''is_error'', Boolean True),
                (''result'', String (ustr ''Something went wrong''))]),
        (flag_one_line,
           obj [(''type'', String (ustr ''result'')), (''is_error'', Number (Finite 1)),
                (''result'', String (ustr ''boom''))]),
        (array_line, Array [Number (Finite 1), Number (Finite 2)])]
       t"

text \<open>A callbacks object with every observer installed.\<close>

definition all_callbacks :: StreamJsonCallbacks where
  "all_callbacks =
     \<lparr>onText = True, onToolUse = True, onSessionId = True, onUsage = True, onError = True\<rparr>"

text \<open>A session of three events, cut into fragments in the middle of tokens.\<close>

definition demo_fragments :: "jsstring list" where
  \<open>demo_fragments =
     [ustr ''{"type":"system","subtype":"in'',
      ustr ''it","session_id":"from-init"}\<newline>{"type":"content_bl'',
      ustr ''ock_delta","delta":{"type":"text_delta","text":"Hello"}}\<newline>'',
      ustr ''{"type":"result","usage":{"input_tokens":50,"output_tokens":10}}'']\<close>

section \<open>Basic facts\<close>

lemma of_char_word16_inj: "(of_char a :: 16 word) = of_char b \<longleftrightarrow> a = b"
proof
  assume eq: "(of_char a :: 16 word) = of_char b"
  have u: "unat (of_char c :: 16 word) = of_char c" for c
  proof -
    have "(of_char c :: nat) < 256" by simp
    also have "(256 :: nat) < 2 ^ 16" by simp
    finally have "(of_char c :: nat) < 2 ^ 16" .
    then have "unat (of_nat (of_char c) :: 16 word) = of_char c"
      by (simp add: unat_of_nat)
    then show ?thesis by (simp add: of_nat_of_char)
  qed
  from eq have "unat (of_char a :: 16 word) = unat (of_char b :: 16 word)" by simp
  then have "(of_char a :: nat) = of_char b" by (simp only: u)
  then show "a = b" by simp
qed simp

lemma ustr_eq_iff [simp]: "ustr a = ustr b \<longleftrightarrow> a = b"
  unfolding ustr_def by (simp add: inj_map_eq_map inj_def of_char_word16_inj)

lemma ustr_Nil_iff [simp]: "ustr a = [] \<longleftrightarrow> a = []" "[] = ustr a \<longleftrightarrow> a = []"
  by (auto simp: ustr_def)

lemma last_dropWhile_ne: "dropWhile P xs \<noteq> [] \<Longrightarrow> last (dropWhile P xs) = last xs"
  by (induction xs) (auto split: if_splits)

lemma trim_ends:
  assumes "trim s \<noteq> []"
  shows "\<not> isWhiteSpace (hd (trim s))" and "\<not> isWhiteSpace (last (trim s))"
proof -
  define d where "d = dropWhile isWhiteSpace s"
  define e where "e = dropWhile isWhiteSpace (rev d)"
  have t: "trim s = rev e" by (simp add: trim_def d_def e_def)
  from assms t have e: "e \<noteq> []" by simp
  then have d: "d \<noteq> []" unfolding e_def by auto
  have "\<not> isWhiteSpace (hd e)" using e unfolding e_def by (rule hd_dropWhile)
  then show "\<not> isWhiteSpace (last (trim s))" using e t by (simp add: last_rev)
  have "last e = last (rev d)" using e unfolding e_def by (rule last_dropWhile_ne)
  then have "hd (trim s) = hd d" using e d t by (simp add: hd_rev last_rev)
  moreover have "\<not> isWhiteSpace (hd d)" using d unfolding d_def by (rule hd_dropWhile)
  ultimately show "\<not> isWhiteSpace (hd (trim s))" by simp
qed

lemma dropWhile_id_hd: "xs \<noteq> [] \<Longrightarrow> \<not> P (hd xs) \<Longrightarrow> dropWhile P xs = xs"
  by (cases xs) auto

lemma trim_Nil [simp]: "trim [] = []"
  by (simp add: trim_def)

lemma trim_idem: "trim (trim s) = trim s"
proof (cases "trim s = []")
  case True
  then show ?thesis by simp
next
  case False
  have a: "dropWhile isWhiteSpace (trim s) = trim s"
    using False trim_ends(1)[OF False] by (rule dropWhile_id_hd)
  have "rev (trim s) \<noteq> []" "\<not> isWhiteSpace (hd (rev (trim s)))"
    using False trim_ends(2)[OF False] by (simp_all add: hd_rev)
  then have b: "dropWhile isWhiteSpace (rev (trim s)) = rev (trim s)"
    by (rule dropWhile_id_hd)
  show ?thesis
    unfolding trim_def[of "trim s"] a b by simp
qed

subsection \<open>Splitting into lines\<close>

lemma split_ne: "split sep xs \<noteq> []"
  by (induction xs) (auto split: list.splits)

lemma split_append:
  "split sep (xs @ ys) = butlast (split sep xs) @ split sep (last (split sep xs) @ ys)"
proof (induction xs)
  case Nil
  then show ?case by simp
next
  case (Cons c cs)
  show ?case
  proof (cases "c = sep")
    case True
    then show ?thesis using Cons split_ne[of sep cs] by simp
  next
    case False
    obtain l ls where s: "split sep cs = l # ls"
      using split_ne[of sep cs] by (cases "split sep cs") auto
    show ?thesis
    proof (cases ls)
      case Nil
      then show ?thesis using False s Cons by simp
    next
      case (Cons a as)
      then show ?thesis using False s Cons.IH
        by (simp split: list.splits)
    qed
  qed
qed

lemma split_no_sep: "sep \<notin> set xs \<Longrightarrow> split sep xs = [xs]"
  by (induction xs) auto

lemma split_last_no_sep: "sep \<notin> set (last (split sep xs))"
  by (induction xs) (auto split: list.splits simp: split_ne)

subsection \<open>The line handlers do not read the buffer\<close>

lemma result_sessionId_buffer_update:
  "result_sessionId cb v (s\<lparr>buffer := b\<rparr>) = (result_sessionId cb v s)\<lparr>buffer := b\<rparr>"
  by (simp add: result_sessionId_def Let_def notify_def)

lemma result_usage_buffer_update:
  "result_usage cb v (s\<lparr>buffer := b\<rparr>) = (result_usage cb v s)\<lparr>buffer := b\<rparr>"
  by (simp add: result_usage_def Let_def notify_def split: option.splits)

lemma result_fallback_buffer_update:
  "result_fallback cb v (s\<lparr>buffer := b\<rparr>) = (result_fallback cb v s)\<lparr>buffer := b\<rparr>"
  by (simp add: result_fallback_def Let_def notify_def)

lemma result_error_buffer_update:
  "result_error cb v (s\<lparr>buffer := b\<rparr>) = (result_error cb v s)\<lparr>buffer := b\<rparr>"
  by (simp add: result_error_def Let_def notify_def)

lemma branches_buffer_update:
  "delta_branch cb v (s\<lparr>buffer := b\<rparr>) = (delta_branch cb v s)\<lparr>buffer := b\<rparr>"
  "block_start_branch cb v (s\<lparr>buffer := b\<rparr>) = (block_start_branch cb v s)\<lparr>buffer := b\<rparr>"
  "system_branch cb v (s\<lparr>buffer := b\<rparr>) = (system_branch cb v s)\<lparr>buffer := b\<rparr>"
  "result_branch cb v (s\<lparr>buffer := b\<rparr>) = (result_branch cb v s)\<lparr>buffer := b\<rparr>"
     apply (simp add: delta_branch_def Let_def notify_def)
    apply (simp add: block_start_branch_def Let_def notify_def)
   apply (simp add: system_branch_def Let_def notify_def)
  apply (simp only: result_branch_def result_sessionId_buffer_update
      result_usage_buffer_update result_fallback_buffer_update result_error_buffer_update)
  done

lemma dispatch_buffer_update:
  "dispatch cb v (s\<lparr>buffer := b\<rparr>) = (dispatch cb v s)\<lparr>buffer := b\<rparr>"
  by (simp add: dispatch_def Let_def branches_buffer_update)

lemma processLine_buffer_update:
  "processLine parse cb l (s\<lparr>buffer := b\<rparr>) = (processLine parse cb l s)\<lparr>buffer := b\<rparr>"
  by (simp add: processLine_def Let_def dispatch_buffer_update split: option.splits)

lemma fold_processLine_buffer_update:
  "fold (processLine parse cb) ls (s\<lparr>buffer := b\<rparr>) =
     (fold (processLine parse cb) ls s)\<lparr>buffer := b\<rparr>"
  by (induction ls arbitrary: s) (simp_all add: processLine_buffer_update)

lemma processLine_buffer [simp]: "buffer (processLine parse cb l s) = buffer s"
proof -
  have "processLine parse cb l s = processLine parse cb l (s\<lparr>buffer := buffer s\<rparr>)" by simp
  also have "buffer \<dots> = buffer s" by (simp only: processLine_buffer_update) simp
  finally show ?thesis .
qed

subsection \<open>feed composes\<close>

lemma feed_unfold:
  "feed parse cb chunk s =
     (fold (processLine parse cb) (butlast (split newline (buffer s @ chunk))) s)
       \<lparr>buffer := last (split newline (buffer s @ chunk))\<rparr>"
  by (simp add: feed_def pop_def split_ne fold_processLine_buffer_update)

lemma feed_append: "feed parse cb b (feed parse cb a s) = feed parse cb (a @ b) s"
proof -
  let ?A = "split newline (buffer s @ a)"
  let ?B = "split newline (last ?A @ b)"
  have sp: "split newline (buffer s @ a @ b) = butlast ?A @ ?B"
    using split_append[of newline "buffer s @ a" b] by simp
  have bl: "butlast (butlast ?A @ ?B) = butlast ?A @ butlast ?B"
    by (simp add: butlast_append split_ne)
  have la: "last (butlast ?A @ ?B) = last ?B"
    by (simp add: split_ne)
  show ?thesis
    by (simp add: feed_unfold sp bl la fold_processLine_buffer_update)
qed

lemma feed_Nil: "newline \<notin> set (buffer s) \<Longrightarrow> feed parse cb [] s = s"
  by (simp add: feed_unfold split_no_sep)

lemma feed_buffer_no_newline: "newline \<notin> set (buffer (feed parse cb chunk s))"
  by (simp add: feed_unfold split_last_no_sep)

lemma fold_feed_concat:
  "newline \<notin> set (buffer s) \<Longrightarrow>
   fold (feed parse cb) frags s = feed parse cb (concat frags) s"
proof (induction frags arbitrary: s)
  case Nil
  then show ?case by (simp add: feed_Nil)
next
  case (Cons f fs)
  have "fold (feed parse cb) (f # fs) s = fold (feed parse cb) fs (feed parse cb f s)" by simp
  also have "\<dots> = feed parse cb (concat fs) (feed parse cb f s)"
    by (rule Cons.IH) (rule feed_buffer_no_newline)
  also have "\<dots> = feed parse cb (concat (f # fs)) s"
    by (simp add: feed_append)
  finally show ?case .
qed

subsection \<open>What one event changes\<close>

lemma calls_notify: "calls (notify cb c s) = calls s @ (if installed cb c then [c] else [])"
  by (simp add: notify_def)

lemma notify_fields [simp]:
  "buffer (notify cb c s) = buffer s"
  "collectedTextParts (notify cb c s) = collectedTextParts s"
  "sessionId (notify cb c s) = sessionId s"
  "usage (notify cb c s) = usage s"
  by (simp_all add: notify_def)

lemma notify_calls [simp]:
  "text_calls (notify cb c s) = text_calls s @ (if installed cb c then text_of c else [])"
  "session_calls (notify cb c s) = session_calls s @ (if installed cb c then session_of c else [])"
  "usage_calls (notify cb c s) = usage_calls s @ (if installed cb c then usage_of c else [])"
  "error_calls (notify cb c s) = error_calls s @ (if installed cb c then error_of c else [])"
  by (simp_all add: notify_def text_calls_def session_calls_def usage_calls_def error_calls_def)

lemma calls_update [simp]:
  "text_calls (s\<lparr>collectedTextParts := p\<rparr>) = text_calls s"
  "text_calls (s\<lparr>sessionId := i\<rparr>) = text_calls s"
  "text_calls (s\<lparr>usage := u\<rparr>) = text_calls s"
  "session_calls (s\<lparr>collectedTextParts := p\<rparr>) = session_calls s"
  "session_calls (s\<lparr>sessionId := i\<rparr>) = session_calls s"
  "session_calls (s\<lparr>usage := u\<rparr>) = session_calls s"
  "usage_calls (s\<lparr>collectedTextParts := p\<rparr>) = usage_calls s"
  "usage_calls (s\<lparr>sessionId := i\<rparr>) = usage_calls s"
  "usage_calls (s\<lparr>usage := u\<rparr>) = usage_calls s"
  "error_calls (s\<lparr>collectedTextParts := p\<rparr>) = error_calls s"
  "error_calls (s\<lparr>sessionId := i\<rparr>) = error_calls s"
  "error_calls (s\<lparr>usage := u\<rparr>) = error_calls s"
  by (simp_all add: text_calls_def session_calls_def usage_calls_def error_calls_def)

lemma calls_buffer_update [simp]:
  "text_calls (s\<lparr>buffer := b\<rparr>) = text_calls s"
  "session_calls (s\<lparr>buffer := b\<rparr>) = session_calls s"
  "usage_calls (s\<lparr>buffer := b\<rparr>) = usage_calls s"
  "error_calls (s\<lparr>buffer := b\<rparr>) = error_calls s"
  by (simp_all add: text_calls_def session_calls_def usage_calls_def error_calls_def)

lemma result_sessionId_simps:
  "collectedTextParts (result_sessionId cb v s) = collectedTextParts s"
  "usage (result_sessionId cb v s) = usage s"
  "text_calls (result_sessionId cb v s) = text_calls s"
  "usage_calls (result_sessionId cb v s) = usage_calls s"
  "error_calls (result_sessionId cb v s) = error_calls s"
  by (simp_all add: result_sessionId_def Let_def)

lemma result_usage_simps:
  "collectedTextParts (result_usage cb v s) = collectedTextParts s"
  "sessionId (result_usage cb v s) = sessionId s"
  "text_calls (result_usage cb v s) = text_calls s"
  "session_calls (result_usage cb v s) = session_calls s"
  "error_calls (result_usage cb v s) = error_calls s"
  by (simp_all add: result_usage_def Let_def split: option.splits)

lemma result_fallback_simps:
  "sessionId (result_fallback cb v s) = sessionId s"
  "usage (result_fallback cb v s) = usage s"
  "session_calls (result_fallback cb v s) = session_calls s"
  "usage_calls (result_fallback cb v s) = usage_calls s"
  "error_calls (result_fallback cb v s) = error_calls s"
  by (simp_all add: result_fallback_def Let_def)

lemma result_error_simps:
  "collectedTextParts (result_error cb v s) = collectedTextParts s"
  "sessionId (result_error cb v s) = sessionId s"
  "usage (result_error cb v s) = usage s"
  "text_calls (result_error cb v s) = text_calls s"
  "session_calls (result_error cb v s) = session_calls s"
  "usage_calls (result_error cb v s) = usage_calls s"
  by (simp_all add: result_error_def Let_def)

lemmas result_simps = result_sessionId_simps result_usage_simps result_fallback_simps result_error_simps

lemma dispatch_cases:
  obtains
    (delta) "event_type v = ustr ''content_block_delta''" "isRecord (getp v (ustr ''delta''))"
      "dispatch cb v s = delta_branch cb v s"
  | (block) "event_type v = ustr ''content_block_start''" "isRecord (getp v (ustr ''content_block''))"
      "dispatch cb v s = block_start_branch cb v s"
  | (system) "event_type v = ustr ''system''" "not_str (sessionId s)"
      "dispatch cb v s = system_branch cb v s"
  | (result) "event_type v = ustr ''result''"
      "dispatch cb v s = result_branch cb v s"
  | (other) "text_delta v = None" "fallback_text v = None" "error_message v = None"
      "usage_object v = None" "session_field v = None \<or> \<not> not_str (sessionId s)"
      "dispatch cb v s = s"
proof -
  consider
    (a) "event_type v = ustr ''content_block_delta''" "isRecord (getp v (ustr ''delta''))"
  | (a') "event_type v = ustr ''content_block_delta''" "\<not> isRecord (getp v (ustr ''delta''))"
  | (b) "event_type v = ustr ''content_block_start''" "isRecord (getp v (ustr ''content_block''))"
  | (b') "event_type v = ustr ''content_block_start''" "\<not> isRecord (getp v (ustr ''content_block''))"
  | (c) "event_type v = ustr ''system''" "not_str (sessionId s)"
  | (c') "event_type v = ustr ''system''" "\<not> not_str (sessionId s)"
  | (d) "event_type v = ustr ''result''"
  | (e) "event_type v \<noteq> ustr ''content_block_delta''" "event_type v \<noteq> ustr ''content_block_start''"
        "event_type v \<noteq> ustr ''system''" "event_type v \<noteq> ustr ''result''"
    by blast
  then show thesis
  proof cases
    case a
    then show ?thesis using delta by (simp add: dispatch_def)
  next
    case a'
    then show ?thesis using other
      by (simp add: dispatch_def text_delta_def fallback_text_def error_message_def
          usage_object_def session_field_def)
  next
    case b
    then show ?thesis using block by (simp add: dispatch_def)
  next
    case b'
    then show ?thesis using other
      by (simp add: dispatch_def text_delta_def fallback_text_def error_message_def
          usage_object_def session_field_def)
  next
    case c
    then show ?thesis using system by (simp add: dispatch_def)
  next
    case c'
    then show ?thesis using other
      by (simp add: dispatch_def text_delta_def fallback_text_def error_message_def
          usage_object_def session_field_def)
  next
    case d
    then show ?thesis using result by (simp add: dispatch_def)
  next
    case e
    then show ?thesis using other
      by (simp add: dispatch_def text_delta_def fallback_text_def error_message_def
          usage_object_def session_field_def)
  qed
qed


lemmas vocab = text_delta_def fallback_text_def error_message_def usage_object_def
  session_field_def new_text_def

lemma dispatch_parts:
  "collectedTextParts (dispatch cb v s) =
     collectedTextParts s @ new_text v (collectedTextParts s = [])"
proof (cases rule: dispatch_cases[of v cb s])
  case delta
  then show ?thesis by (simp add: delta_branch_def Let_def vocab)
next
  case block
  then show ?thesis by (simp add: block_start_branch_def Let_def vocab)
next
  case system
  then show ?thesis by (simp add: system_branch_def Let_def vocab)
next
  case result
  then show ?thesis
    by (simp add: result_branch_def result_simps result_fallback_def Let_def vocab)
next
  case other
  then show ?thesis by (simp add: new_text_def)
qed

lemma dispatch_text_calls:
  "text_calls (dispatch cb v s) =
     text_calls s @ (if onText cb then new_text v (collectedTextParts s = []) else [])"
proof (cases rule: dispatch_cases[of v cb s])
  case delta
  then show ?thesis by (simp add: delta_branch_def Let_def vocab)
next
  case block
  then show ?thesis by (simp add: block_start_branch_def Let_def vocab)
next
  case system
  then show ?thesis by (simp add: system_branch_def Let_def vocab)
next
  case result
  then show ?thesis
    by (simp add: result_branch_def result_simps result_fallback_def Let_def vocab)
next
  case other
  then show ?thesis by (simp add: new_text_def)
qed

lemma dispatch_sessionId:
  "sessionId (dispatch cb v s) =
     (if not_str (sessionId s)
      then (case session_field v of Some i \<Rightarrow> Some i | None \<Rightarrow> sessionId s)
      else sessionId s)"
proof (cases rule: dispatch_cases[of v cb s])
  case delta
  then show ?thesis by (simp add: delta_branch_def Let_def vocab)
next
  case block
  then show ?thesis by (simp add: block_start_branch_def Let_def vocab)
next
  case system
  then show ?thesis by (simp add: system_branch_def Let_def vocab)
next
  case result
  then show ?thesis
    by (simp add: result_branch_def result_simps result_sessionId_def Let_def vocab)
next
  case other
  then show ?thesis by auto
qed

lemma dispatch_session_calls:
  "session_calls (dispatch cb v s) =
     session_calls s @
       (if onSessionId cb \<and> not_str (sessionId s)
        then (case session_field v of Some i \<Rightarrow> [i] | None \<Rightarrow> [])
        else [])"
proof (cases rule: dispatch_cases[of v cb s])
  case delta
  then show ?thesis by (simp add: delta_branch_def Let_def vocab)
next
  case block
  then show ?thesis by (simp add: block_start_branch_def Let_def vocab)
next
  case system
  then show ?thesis by (simp add: system_branch_def Let_def vocab)
next
  case result
  then show ?thesis
    by (simp add: result_branch_def result_simps result_sessionId_def Let_def vocab)
next
  case other
  then show ?thesis by auto
qed

lemma dispatch_error_calls:
  "error_calls (dispatch cb v s) =
     error_calls s @
       (if onError cb then (case error_message v of Some m \<Rightarrow> [m] | None \<Rightarrow> []) else [])"
proof (cases rule: dispatch_cases[of v cb s])
  case delta
  then show ?thesis by (simp add: delta_branch_def Let_def vocab)
next
  case block
  then show ?thesis by (simp add: block_start_branch_def Let_def vocab)
next
  case system
  then show ?thesis by (simp add: system_branch_def Let_def vocab)
next
  case result
  then show ?thesis
    by (simp add: result_branch_def result_simps result_error_def Let_def vocab)
next
  case other
  then show ?thesis by simp
qed

lemma dispatch_usage:
  "usage (dispatch cb v s) =
     (case usage_object v of
        Some u \<Rightarrow> (case toUsage u of Some x \<Rightarrow> Some x | None \<Rightarrow> usage s)
      | None \<Rightarrow> usage s)"
proof (cases rule: dispatch_cases[of v cb s])
  case delta
  then show ?thesis by (simp add: delta_branch_def Let_def vocab)
next
  case block
  then show ?thesis by (simp add: block_start_branch_def Let_def vocab)
next
  case system
  then show ?thesis by (simp add: system_branch_def Let_def vocab)
next
  case result
  then show ?thesis
    by (simp add: result_branch_def result_simps result_usage_def Let_def vocab
        split: option.splits)
next
  case other
  then show ?thesis by simp
qed

lemma dispatch_usage_calls:
  "usage_calls (dispatch cb v s) =
     usage_calls s @
       (if onUsage cb
        then (case usage_object v of
                Some u \<Rightarrow> (case usage (dispatch cb v s) of Some x \<Rightarrow> [x] | None \<Rightarrow> [])
              | None \<Rightarrow> [])
        else [])"
proof (cases rule: dispatch_cases[of v cb s])
  case delta
  then show ?thesis by (simp add: delta_branch_def Let_def vocab)
next
  case block
  then show ?thesis by (simp add: block_start_branch_def Let_def vocab)
next
  case system
  then show ?thesis by (simp add: system_branch_def Let_def vocab)
next
  case result
  then show ?thesis
    by (simp add: result_branch_def result_simps result_usage_def Let_def vocab
        split: option.splits)
next
  case other
  then show ?thesis by simp
qed

lemma processLine_event:
  "processLine parse cb line s =
     (case event parse line of None \<Rightarrow> s | Some v \<Rightarrow> dispatch cb v s)"
  by (simp add: processLine_def event_def Let_def split: option.splits)

subsection \<open>Evaluating concrete inputs\<close>

lemma ustr_append: "ustr a @ ustr b = ustr (a @ b)"
  by (simp add: ustr_def)

lemma ustr_Cons: "of_char c # ustr s = ustr (c # s)"
  by (simp add: ustr_def)

lemma newline_of_char: "newline = of_char (CHR 0x0A)"
  by (simp add: newline_def)

lemma split_map_inj: "inj f \<Longrightarrow> split (f c) (map f s) = map (map f) (split c s)"
  by (induction s) (auto simp: inj_eq split: list.splits)

lemma inj_of_char_word16: "inj (of_char :: char \<Rightarrow> 16 word)"
  by (simp add: inj_def of_char_word16_inj)

lemma split_ustr: "split newline (ustr s) = map ustr (split (CHR 0x0A) s)"
proof -
  have "split (of_char (CHR 0x0A) :: 16 word) (map of_char s) = map (map of_char) (split (CHR 0x0A) s)"
    by (rule split_map_inj[OF inj_of_char_word16])
  moreover have "ustr = map of_char" by (rule ext) (simp add: ustr_def)
  ultimately show ?thesis by (simp only: newline_of_char)
qed

lemma dropWhile_ustr: "dropWhile isWhiteSpace (ustr s) = ustr (dropWhile (\<lambda>c. isWhiteSpace (of_char c)) s)"
  by (simp add: ustr_def dropWhile_map comp_def)

lemma rev_ustr: "rev (ustr s) = ustr (rev s)"
  by (simp add: ustr_def rev_map)

lemma trim_ustr: "trim (ustr s) = ustr (rev (dropWhile (\<lambda>c. isWhiteSpace (of_char c)) (rev (dropWhile (\<lambda>c. isWhiteSpace (of_char c)) s))))"
  by (simp add: trim_def dropWhile_ustr rev_ustr)

lemma map_of_ustr: "map_of (map (\<lambda>(n, v). (ustr n, v)) kvs) (ustr k) = map_of kvs k"
  by (induction kvs) auto

lemma getp_obj: "getp (obj kvs) (ustr k) = (case map_of kvs k of None \<Rightarrow> Undefined | Some v \<Rightarrow> v)"
  by (simp add: obj_def map_of_ustr)

lemma isRecord_obj: "isRecord (obj kvs)"
  by (simp add: isRecord_def obj_def)

lemma split_line: "sep \<notin> set xs \<Longrightarrow> split sep (xs @ sep # ys) = xs # split sep ys"
  by (induction xs) auto

lemma isRecord_simps:
  "isRecord Undefined = False" "isRecord Null = False" "isRecord (Boolean b) = False"
  "isRecord (Number n) = False" "isRecord (String t) = False" "isRecord (Array xs) = False"
  "isRecord (Object m) = True"
  by (simp_all add: isRecord_def)

lemma newline_ustr: "newline # ustr s = ustr (CHR 0x0A # s)" "[newline] = ustr [CHR 0x0A]"
  by (simp_all add: ustr_def newline_def)

lemmas lines = init_line_def padded_init_line_def delta_line_def empty_delta_line_def result_line_def usage_line_def zero_usage_line_def error_line_def flag_one_line_def array_line_def

lemmas evals = lines isRecord_simps ustr_append split_ustr trim_ustr getp_obj isRecord_obj isWhiteSpace_def
   feed_unfold flush_def processLine_def dispatch_def delta_branch_def block_start_branch_def system_branch_def
   result_branch_def result_sessionId_def result_usage_def result_fallback_def result_error_def notify_def
   demo_parse_def all_callbacks_def createStreamJsonParser_def event_type_def toUsage_def pick_def Let_def
   getCollectedText_def getSessionId_def getUsage_def

lemma demo_events:
  "event demo_parse init_line =
     Some (obj [(''type'', String (ustr ''system'')), (''subtype'', String (ustr ''init'')),
                (''session_id'', String (ustr ''from-init''))])"
  "event demo_parse delta_line =
     Some (obj [(''type'', String (ustr ''content_block_delta'')),
                (''delta'', obj [(''type'', String (ustr ''text_delta'')),
                                 (''text'', String (ustr ''Hello''))])])"
  "event demo_parse empty_delta_line =
     Some (obj [(''type'', String (ustr ''content_block_delta'')),
                (''delta'', obj [(''type'', String (ustr ''text_delta'')),
                                 (''text'', String [])])])"
  "event demo_parse result_line =
     Some (obj [(''type'', String (ustr ''result'')),
                (''session_id'', String (ustr ''from-result'')),
                (''result'', String (ustr ''done''))])"
  by (simp_all add: event_def evals)

lemmas vocab_evals = text_delta_def fallback_text_def event_type_def getp_obj isRecord_obj
  trim_ustr isWhiteSpace_def

section \<open>Usage conversion\<close>

lemma gt_zero_truthy: "num_gt_zero n \<Longrightarrow> num_truthy n"
  by (cases n) auto

lemma first_positive_Cons:
  "first_positive raw (k # ks) = nullish (pick raw k) (first_positive raw ks)"
  by (simp add: pick_def split: jsvalue.splits)

lemma first_positive_gt_zero: "first_positive raw ks = Some n \<Longrightarrow> num_gt_zero n"
  by (induction ks) (auto split: jsvalue.splits if_splits)

lemma not_num_first_positive:
  "not_num (first_positive raw ks) \<longleftrightarrow> first_positive raw ks = None"
  by (cases "first_positive raw ks") (auto dest: first_positive_gt_zero gt_zero_truthy)

lemma nullish_None: "nullish x None = x"
  by (cases x) auto

text \<open>
  Claim C7. For every input object, \<open>toUsage\<close> resolves each of the five counters to the
  first key of that counter's priority list whose value is a number strictly greater than
  zero, skipping a key whose value is absent, not a number, zero or negative; it yields no
  record exactly when all five counters are absent, and otherwise the record of the
  resolved counters. The code, written with \<open>??\<close> and the falsiness test \<open>!x\<close>, computes
  what the specification describes.
\<close>

theorem toUsage_refines_spec: "toUsage raw = spec_toUsage raw"
proof -
  have two: "nullish (pick raw a) (pick raw b) = first_positive raw [a, b]" for a b
    by (simp only: first_positive_Cons first_positive.simps(1) nullish_None)
  show ?thesis
    unfolding toUsage_def spec_toUsage_def two first_positive_Cons[symmetric]
    by (simp only: Let_def not_num_first_positive)
qed

section \<open>Chunk boundaries\<close>

text \<open>
  Claim C1. For every stream and every way of splitting it into fragments, feeding the
  fragments in order and then flushing gives the same accumulated text, session id and
  usage record (and the same observer calls) as feeding the whole stream in one call and
  then flushing. This holds from every parser state whose pending fragment holds no
  newline, the fresh parser among them.
\<close>

theorem feed_split_invariance:
  assumes "newline \<notin> set (buffer s)"
  shows "getCollectedText (flush parse cb (fold (feed parse cb) frags s)) =
           getCollectedText (flush parse cb (feed parse cb (concat frags) s)) \<and>
         getSessionId (flush parse cb (fold (feed parse cb) frags s)) =
           getSessionId (flush parse cb (feed parse cb (concat frags) s)) \<and>
         getUsage (flush parse cb (fold (feed parse cb) frags s)) =
           getUsage (flush parse cb (feed parse cb (concat frags) s)) \<and>
         calls (flush parse cb (fold (feed parse cb) frags s)) =
           calls (flush parse cb (feed parse cb (concat frags) s))"
  using assms by (simp add: fold_feed_concat)

theorem feed_split_invariance_witness:
  "newline \<notin> set (buffer createStreamJsonParser) \<and>
   getCollectedText (flush demo_parse all_callbacks
       (fold (feed demo_parse all_callbacks) demo_fragments createStreamJsonParser)) =
     getCollectedText (flush demo_parse all_callbacks
       (feed demo_parse all_callbacks (concat demo_fragments) createStreamJsonParser)) \<and>
   getSessionId (flush demo_parse all_callbacks
       (fold (feed demo_parse all_callbacks) demo_fragments createStreamJsonParser)) =
     getSessionId (flush demo_parse all_callbacks
       (feed demo_parse all_callbacks (concat demo_fragments) createStreamJsonParser)) \<and>
   getUsage (flush demo_parse all_callbacks
       (fold (feed demo_parse all_callbacks) demo_fragments createStreamJsonParser)) =
     getUsage (flush demo_parse all_callbacks
       (feed demo_parse all_callbacks (concat demo_fragments) createStreamJsonParser)) \<and>
   getCollectedText (flush demo_parse all_callbacks
       (fold (feed demo_parse all_callbacks) demo_fragments createStreamJsonParser)) =
     ustr ''Hello'' \<and>
   getSessionId (flush demo_parse all_callbacks
       (fold (feed demo_parse all_callbacks) demo_fragments createStreamJsonParser)) =
     Some (ustr ''from-init'') \<and>
   getUsage (flush demo_parse all_callbacks
       (fold (feed demo_parse all_callbacks) demo_fragments createStreamJsonParser)) =
     Some \<lparr>input = Some (Finite 50), output_u = Some (Finite 10), cacheRead = None,
            cacheWrite = None, total_u = None\<rparr>"
proof -
  have h: "newline \<notin> set (buffer createStreamJsonParser)"
    by (simp add: createStreamJsonParser_def)
  have same:
    "fold (feed demo_parse all_callbacks) demo_fragments createStreamJsonParser =
     feed demo_parse all_callbacks (concat demo_fragments) createStreamJsonParser"
    using h by (rule fold_feed_concat)
  have tx: "getCollectedText (flush demo_parse all_callbacks
       (feed demo_parse all_callbacks (concat demo_fragments) createStreamJsonParser)) =
     ustr ''Hello''"
    by (simp add: evals demo_fragments_def)
  have sid: "getSessionId (flush demo_parse all_callbacks
       (feed demo_parse all_callbacks (concat demo_fragments) createStreamJsonParser)) =
     Some (ustr ''from-init'')"
    by (simp add: evals demo_fragments_def)
  have us: "getUsage (flush demo_parse all_callbacks
       (feed demo_parse all_callbacks (concat demo_fragments) createStreamJsonParser)) =
     Some \<lparr>input = Some (Finite 50), output_u = Some (Finite 10), cacheRead = None,
            cacheWrite = None, total_u = None\<rparr>"
    by (simp add: evals demo_fragments_def)
  show ?thesis
    using h feed_split_invariance[OF h, of demo_parse all_callbacks demo_fragments]
    by (simp only: same tx sid us) simp
qed

section \<open>flush\<close>

text \<open>
  Claim C3, as amended. When the pending fragment holds non-whitespace content, \<open>flush\<close>
  classifies it as one final line (it is what \<open>processLine\<close> makes of the state) and
  clears it. When the pending fragment is empty or holds only whitespace, \<open>flush\<close> leaves
  the parser as it was, the whitespace included (the guard \<open>if (buffer.trim())\<close> covers
  both the classification and the clearing). So after \<open>flush\<close> returns the pending
  fragment holds no non-whitespace content. Flushing with no pending content changes
  nothing, and a second flush changes nothing after the first, so neither makes an
  observer call.
\<close>

theorem flush_pending_fragment:
  "trim (buffer (flush parse cb s)) = [] \<and>
   buffer (flush parse cb s) = (if trim (buffer s) = [] then buffer s else []) \<and>
   (trim (buffer s) \<noteq> [] \<longrightarrow>
      flush parse cb s = (processLine parse cb (buffer s) s)\<lparr>buffer := []\<rparr>) \<and>
   (trim (buffer s) = [] \<longrightarrow> flush parse cb s = s) \<and>
   flush parse cb (flush parse cb s) = flush parse cb s \<and>
   calls (flush parse cb (flush parse cb s)) = calls (flush parse cb s)"
  by (simp add: flush_def)

theorem flush_pending_fragment_witness:
  "trim (buffer createStreamJsonParser) = [] \<and>
   flush demo_parse all_callbacks createStreamJsonParser = createStreamJsonParser \<and>
   trim (buffer (feed demo_parse all_callbacks delta_line createStreamJsonParser)) \<noteq> [] \<and>
   flush demo_parse all_callbacks
      (feed demo_parse all_callbacks delta_line createStreamJsonParser) =
     (processLine demo_parse all_callbacks
        (buffer (feed demo_parse all_callbacks delta_line createStreamJsonParser))
        (feed demo_parse all_callbacks delta_line createStreamJsonParser))\<lparr>buffer := []\<rparr> \<and>
   text_calls (feed demo_parse all_callbacks delta_line createStreamJsonParser) = [] \<and>
   text_calls (flush demo_parse all_callbacks
      (feed demo_parse all_callbacks delta_line createStreamJsonParser)) = [ustr ''Hello''] \<and>
   buffer (flush demo_parse all_callbacks
      (feed demo_parse all_callbacks delta_line createStreamJsonParser)) = [] \<and>
   flush demo_parse all_callbacks (flush demo_parse all_callbacks
      (feed demo_parse all_callbacks delta_line createStreamJsonParser)) =
     flush demo_parse all_callbacks
      (feed demo_parse all_callbacks delta_line createStreamJsonParser)"
proof -
  have h: "trim (buffer createStreamJsonParser) = []"
    by (simp add: createStreamJsonParser_def)
  have e: "trim (buffer (feed demo_parse all_callbacks delta_line createStreamJsonParser)) \<noteq> []"
    by (simp add: evals)
  have before: "text_calls (feed demo_parse all_callbacks delta_line createStreamJsonParser) = []"
    by (simp add: evals text_calls_def)
  have after: "text_calls (flush demo_parse all_callbacks
      (feed demo_parse all_callbacks delta_line createStreamJsonParser)) = [ustr ''Hello'']"
    by (simp add: evals text_calls_def)
  note fresh = flush_pending_fragment[of demo_parse all_callbacks createStreamJsonParser]
  note fed = flush_pending_fragment[of demo_parse all_callbacks
      "feed demo_parse all_callbacks delta_line createStreamJsonParser"]
  have cleared: "buffer (flush demo_parse all_callbacks
      (feed demo_parse all_callbacks delta_line createStreamJsonParser)) = []"
    using fed e by simp
  show ?thesis
    using h e before after cleared fresh fed by blast
qed

text \<open>
  The claim as it was stated fails: a pending fragment of two spaces is still there after
  \<open>flush\<close>.
\<close>

theorem flush_keeps_whitespace_counterexample:
  "buffer (flush demo_parse all_callbacks
     (feed demo_parse all_callbacks (ustr ''  '') createStreamJsonParser)) = ustr ''  '' \<and>
   buffer (flush demo_parse all_callbacks
     (feed demo_parse all_callbacks (ustr ''  '') createStreamJsonParser)) \<noteq> []"
  by (simp add: evals)

section \<open>The error observer\<close>

text \<open>
  Claim C4, as amended. Processing a line calls the error observer exactly when the line is
  a result event whose error flag is the boolean \<open>true\<close> (the test is
  \<open>parsed.is_error === true\<close>) and whose result field is a string, and then once, with
  that string. No other line calls it, and the condition does not mention the parser state,
  so the call is made whether or not the same line set the session id, stored a usage
  record or produced the fallback text.
\<close>

theorem error_observer_exactly_on_error_results:
  "error_calls (processLine parse cb line s) =
     error_calls s @
       (if onError cb
        then (case event parse line of
                None \<Rightarrow> []
              | Some v \<Rightarrow> (case error_message v of None \<Rightarrow> [] | Some m \<Rightarrow> [m]))
        else [])"
  by (simp add: processLine_event dispatch_error_calls split: option.splits)

theorem error_observer_witness:
  "error_calls (processLine demo_parse all_callbacks error_line createStreamJsonParser) =
     [ustr ''Something went wrong''] \<and>
   text_calls (processLine demo_parse all_callbacks error_line createStreamJsonParser) =
     [ustr ''Something went wrong''] \<and>
   error_calls (processLine demo_parse all_callbacks result_line createStreamJsonParser) = []"
proof -
  have a: "event demo_parse error_line =
      Some (obj [(''type'', String (ustr ''result'')), (''is_error'', Boolean True),
                 (''result'', String (ustr ''Something went wrong''))])"
    by (simp add: event_def evals)
  have am: "error_message (obj [(''type'', String (ustr ''result'')), (''is_error'', Boolean True),
                 (''result'', String (ustr ''Something went wrong''))]) =
      Some (ustr ''Something went wrong'')"
    by (simp add: error_message_def event_type_def getp_obj)
  have b: "event demo_parse result_line =
      Some (obj [(''type'', String (ustr ''result'')),
                (''session_id'', String (ustr ''from-result'')),
                (''result'', String (ustr ''done''))])"
    by (simp add: event_def evals)
  have bm: "error_message (obj [(''type'', String (ustr ''result'')),
                (''session_id'', String (ustr ''from-result'')),
                (''result'', String (ustr ''done''))]) = None"
    by (simp add: error_message_def event_type_def getp_obj)
  have c: "text_calls (processLine demo_parse all_callbacks error_line createStreamJsonParser) =
     [ustr ''Something went wrong'']"
    by (simp add: evals text_calls_def)
  have f: "error_calls createStreamJsonParser = []" "onError all_callbacks"
    by (simp_all add: error_calls_def createStreamJsonParser_def all_callbacks_def)
  show ?thesis
    using error_observer_exactly_on_error_results[of demo_parse all_callbacks error_line
        createStreamJsonParser]
      error_observer_exactly_on_error_results[of demo_parse all_callbacks result_line
        createStreamJsonParser]
    by (simp add: a am b bm c f)
qed

text \<open>
  The claim as it was stated fails: a result event whose error flag is the truthy number
  \<open>1\<close> and whose result field is a string makes no call to the error observer.
\<close>

theorem truthy_flag_counterexample:
  "event demo_parse flag_one_line =
     Some (obj [(''type'', String (ustr ''result'')), (''is_error'', Number (Finite 1)),
                (''result'', String (ustr ''boom''))]) \<and>
   truthy (getp (obj [(''type'', String (ustr ''result'')), (''is_error'', Number (Finite 1)),
                (''result'', String (ustr ''boom''))]) (ustr ''is_error'')) \<and>
   typeof (getp (obj [(''type'', String (ustr ''result'')), (''is_error'', Number (Finite 1)),
                (''result'', String (ustr ''boom''))]) (ustr ''result'')) = ''string'' \<and>
   onError all_callbacks \<and>
   error_calls (processLine demo_parse all_callbacks flag_one_line createStreamJsonParser) = []"
  by (simp add: event_def evals error_calls_def)

section \<open>Malformed lines\<close>

lemma event_None_malformed:
  "parse (trim line) = None \<or> (\<exists>v. parse (trim line) = Some v \<and> \<not> isRecord v) \<Longrightarrow>
   event parse line = None"
  by (auto simp: event_def)

lemma processLine_no_event: "event parse line = None \<Longrightarrow> processLine parse cb line s = s"
  by (simp add: processLine_event)

lemma feed_one_line:
  assumes "newline \<notin> set line" "buffer s = []"
  shows "feed parse cb (line @ [newline]) s = processLine parse cb line s"
proof -
  have sp: "split newline (line @ [newline]) = [line, []]"
    using assms(1) by (simp add: split_line)
  have "feed parse cb (line @ [newline]) s = (processLine parse cb line s)\<lparr>buffer := []\<rparr>"
    using assms(2) by (simp add: feed_unfold sp)
  also have "\<dots> = processLine parse cb line s"
    using assms(2) processLine_buffer[of parse cb line s] by simp
  finally show ?thesis .
qed

text \<open>
  Claim C6. A line that fails to decode, or that decodes to a value that is not an object
  (an array or a scalar), leaves the parser exactly as it was: no observer is called, no
  stored state changes and nothing is raised. The lines after it are processed as if it
  had not been delivered, both in a sequence of lines and when the line arrives through
  \<open>feed\<close>.
\<close>

theorem malformed_line_discarded:
  assumes "parse (trim line) = None \<or> (\<exists>v. parse (trim line) = Some v \<and> \<not> isRecord v)"
  shows "processLine parse cb line s = s \<and>
         fold (processLine parse cb) (pre @ line # post) s =
           fold (processLine parse cb) (pre @ post) s \<and>
         (newline \<notin> set line \<and> buffer s = [] \<longrightarrow>
            feed parse cb (line @ newline # rest) s = feed parse cb rest s)"
proof -
  have skip: "processLine parse cb line t = t" for t
    using assms by (simp add: event_None_malformed processLine_no_event)
  have "feed parse cb (line @ newline # rest) s = feed parse cb rest s"
    if "newline \<notin> set line" "buffer s = []"
  proof -
    have "feed parse cb (line @ newline # rest) s =
          feed parse cb rest (feed parse cb (line @ [newline]) s)"
      using feed_append[of parse cb rest "line @ [newline]" s] by simp
    also have "feed parse cb (line @ [newline]) s = s"
      using that by (simp add: feed_one_line skip)
    finally show ?thesis .
  qed
  then show ?thesis by (simp add: skip)
qed

theorem malformed_line_discarded_witness:
  "(demo_parse (trim (ustr ''{broken'')) = None \<or>
      (\<exists>v. demo_parse (trim (ustr ''{broken'')) = Some v \<and> \<not> isRecord v)) \<and>
   (demo_parse (trim array_line) = None \<or>
      (\<exists>v. demo_parse (trim array_line) = Some v \<and> \<not> isRecord v)) \<and>
   processLine demo_parse all_callbacks (ustr ''{broken'') createStreamJsonParser =
     createStreamJsonParser \<and>
   processLine demo_parse all_callbacks array_line createStreamJsonParser =
     createStreamJsonParser \<and>
   fold (processLine demo_parse all_callbacks) ([array_line] @ ustr ''{broken'' # [delta_line])
       createStreamJsonParser =
     fold (processLine demo_parse all_callbacks) ([array_line] @ [delta_line])
       createStreamJsonParser \<and>
   text_calls (fold (processLine demo_parse all_callbacks)
       ([array_line] @ ustr ''{broken'' # [delta_line]) createStreamJsonParser) = [ustr ''Hello'']"
proof -
  have h1: "demo_parse (trim (ustr ''{broken'')) = None \<or>
      (\<exists>v. demo_parse (trim (ustr ''{broken'')) = Some v \<and> \<not> isRecord v)"
    by (simp add: evals)
  have h2: "demo_parse (trim array_line) = None \<or>
      (\<exists>v. demo_parse (trim array_line) = Some v \<and> \<not> isRecord v)"
    by (simp add: evals isRecord_simps)
  have e: "text_calls (fold (processLine demo_parse all_callbacks) ([array_line] @ [delta_line])
       createStreamJsonParser) = [ustr ''Hello'']"
    by (simp add: evals text_calls_def isRecord_simps)
  show ?thesis
    using h1 h2 e
      malformed_line_discarded[of demo_parse "ustr ''{broken''" all_callbacks
        createStreamJsonParser "[array_line]" "[delta_line]", OF h1]
      malformed_line_discarded[of demo_parse array_line all_callbacks createStreamJsonParser,
        OF h2]
    by simp
qed

section \<open>Usage records\<close>

text \<open>
  Claim C2, at the input where the code departs from it. A result event stores the usage
  record \<open>{input: 50, output: 10}\<close>; a second result event carries the usage object
  \<open>{"input_tokens": 0}\<close>, which converts to no record. The stored record is unchanged, but
  the usage observer is called a second time, with the stored record: the test
  \<open>if (usage)\<close> reads the variable after \<open>toUsage(...) ?? usage\<close> has been assigned to it.
\<close>

theorem stale_usage_notified_again:
  "getUsage (run demo_parse all_callbacks [Feed (usage_line @ [newline])]) =
     Some \<lparr>input = Some (Finite 50), output_u = Some (Finite 10), cacheRead = None,
            cacheWrite = None, total_u = None\<rparr> \<and>
   usage_calls (run demo_parse all_callbacks [Feed (usage_line @ [newline])]) =
     [\<lparr>input = Some (Finite 50), output_u = Some (Finite 10), cacheRead = None,
        cacheWrite = None, total_u = None\<rparr>] \<and>
   event demo_parse zero_usage_line =
     Some (obj [(''type'', String (ustr ''result'')),
                (''usage'', obj [(''input_tokens'', Number (Finite 0))])]) \<and>
   toUsage (obj [(''input_tokens'', Number (Finite 0))]) = None \<and>
   getUsage (run demo_parse all_callbacks
       [Feed (usage_line @ [newline]), Feed (zero_usage_line @ [newline])]) =
     Some \<lparr>input = Some (Finite 50), output_u = Some (Finite 10), cacheRead = None,
            cacheWrite = None, total_u = None\<rparr> \<and>
   usage_calls (run demo_parse all_callbacks
       [Feed (usage_line @ [newline]), Feed (zero_usage_line @ [newline])]) =
     [\<lparr>input = Some (Finite 50), output_u = Some (Finite 10), cacheRead = None,
        cacheWrite = None, total_u = None\<rparr>,
      \<lparr>input = Some (Finite 50), output_u = Some (Finite 10), cacheRead = None,
        cacheWrite = None, total_u = None\<rparr>]"
  by (simp add: run_def event_def evals newline_ustr usage_calls_def)

section \<open>The session id\<close>

lemma session_field_trimmed:
  assumes "session_field v = Some i"
  shows "i \<noteq> []" "trim i = i" "\<not> isWhiteSpace (hd i)" "\<not> isWhiteSpace (last i)"
    "typeof (getp v (ustr ''session_id'')) = ''string''"
    "i = trim (string_of (getp v (ustr ''session_id'')))"
proof -
  from assms have i: "i = trim (string_of (getp v (ustr ''session_id'')))"
    and ne: "trim (string_of (getp v (ustr ''session_id''))) \<noteq> []"
    and ty: "typeof (getp v (ustr ''session_id'')) = ''string''"
    by (auto simp: session_field_def split: if_splits)
  show "i = trim (string_of (getp v (ustr ''session_id'')))" by (rule i)
  show "typeof (getp v (ustr ''session_id'')) = ''string''" by (rule ty)
  show "i \<noteq> []" using i ne by simp
  show "trim i = i" unfolding i by (rule trim_idem)
  show "\<not> isWhiteSpace (hd i)" unfolding i using ne by (rule trim_ends(1))
  show "\<not> isWhiteSpace (last i)" unfolding i using ne by (rule trim_ends(2))
qed

lemma processLine_sessionId:
  "sessionId (processLine parse cb line s) =
     (if not_str (sessionId s)
      then (case event parse line of
              None \<Rightarrow> sessionId s
            | Some v \<Rightarrow> (case session_field v of Some i \<Rightarrow> Some i | None \<Rightarrow> sessionId s))
      else sessionId s)"
  by (simp add: processLine_event dispatch_sessionId split: option.splits)

lemma processLine_session_calls:
  "session_calls (processLine parse cb line s) =
     session_calls s @
       (if onSessionId cb \<and> not_str (sessionId s)
        then (case event parse line of
                None \<Rightarrow> []
              | Some v \<Rightarrow> (case session_field v of Some i \<Rightarrow> [i] | None \<Rightarrow> []))
        else [])"
  by (simp add: processLine_event dispatch_session_calls split: option.splits)

lemma session_ok_processLine:
  "session_ok cb s \<Longrightarrow> session_ok cb (processLine parse cb line s)"
  by (auto simp: session_ok_def processLine_sessionId processLine_session_calls
      split: option.splits dest: session_field_trimmed)

lemma session_ok_fold:
  "session_ok cb s \<Longrightarrow> session_ok cb (fold (processLine parse cb) ls s)"
  by (induction ls arbitrary: s) (simp_all add: session_ok_processLine)

lemma session_ok_buffer [simp]: "session_ok cb (s\<lparr>buffer := b\<rparr>) = session_ok cb s"
  by (simp add: session_ok_def cong: option.case_cong)

lemma session_ok_step: "session_ok cb s \<Longrightarrow> session_ok cb (step parse cb x s)"
  by (cases x) (simp_all add: feed_unfold flush_def session_ok_fold session_ok_processLine)

lemma session_ok_steps: "session_ok cb s \<Longrightarrow> session_ok cb (fold (step parse cb) ops s)"
  by (induction ops arbitrary: s) (simp_all add: session_ok_step)

lemma session_ok_run: "session_ok cb (run parse cb ops)"
  unfolding run_def
  by (rule session_ok_steps) (simp add: session_ok_def createStreamJsonParser_def session_calls_def)








text \<open>
  Claim C10. Whenever the session id is set, after any sequence of \<open>feed\<close> and \<open>flush\<close>
  calls on a fresh parser, the stored string (the value of \<open>getSessionId\<close>) is not empty
  and has no whitespace at either end; trimming it again changes nothing. Every argument
  the session-id observer has received is such a string too. The line that establishes the
  id is an event whose session identifier is a string, and the id is that string trimmed.
\<close>

theorem session_id_trimmed:
  "(getSessionId (run parse cb ops) = Some i \<longrightarrow>
      i \<noteq> [] \<and> trim i = i \<and> \<not> isWhiteSpace (hd i) \<and> \<not> isWhiteSpace (last i)) \<and>
   (\<forall>j \<in> set (session_calls (run parse cb ops)).
      j \<noteq> [] \<and> trim j = j \<and> \<not> isWhiteSpace (hd j) \<and> \<not> isWhiteSpace (last j)) \<and>
   (getSessionId (run parse cb ops) = None \<and>
    getSessionId (processLine parse cb line (run parse cb ops)) = Some i \<longrightarrow>
      (\<exists>v. event parse line = Some v \<and> typeof (getp v (ustr ''session_id'')) = ''string'' \<and>
           i = trim (string_of (getp v (ustr ''session_id'')))))"
proof -
  have ok: "session_ok cb (run parse cb ops)" by (rule session_ok_run)
  have a: "i \<noteq> [] \<and> trim i = i \<and> \<not> isWhiteSpace (hd i) \<and> \<not> isWhiteSpace (last i)"
    if "getSessionId (run parse cb ops) = Some i"
    using ok that by (simp add: session_ok_def getSessionId_def)
  have b: "j \<noteq> [] \<and> trim j = j \<and> \<not> isWhiteSpace (hd j) \<and> \<not> isWhiteSpace (last j)"
    if "j \<in> set (session_calls (run parse cb ops))" for j
    using ok that by (auto simp: session_ok_def split: option.splits if_splits)
  have c: "\<exists>v. event parse line = Some v \<and> typeof (getp v (ustr ''session_id'')) = ''string'' \<and>
           i = trim (string_of (getp v (ustr ''session_id'')))"
    if "getSessionId (run parse cb ops) = None"
      "getSessionId (processLine parse cb line (run parse cb ops)) = Some i"
    using that
    by (auto simp: getSessionId_def processLine_sessionId split: option.splits
        dest: session_field_trimmed(5,6))
  show ?thesis using a b c by blast
qed

theorem session_id_trimmed_witness:
  "getSessionId (run demo_parse all_callbacks [Feed (padded_init_line @ [newline])]) =
     Some (ustr ''abc-123'') \<and>
   session_calls (run demo_parse all_callbacks [Feed (padded_init_line @ [newline])]) =
     [ustr ''abc-123''] \<and>
   ustr ''abc-123'' \<noteq> [] \<and> trim (ustr ''abc-123'') = ustr ''abc-123'' \<and>
   \<not> isWhiteSpace (hd (ustr ''abc-123'')) \<and> \<not> isWhiteSpace (last (ustr ''abc-123'')) \<and>
   getSessionId (run demo_parse all_callbacks []) = None \<and>
   getSessionId (processLine demo_parse all_callbacks padded_init_line
       (run demo_parse all_callbacks [])) = Some (ustr ''abc-123'') \<and>
   (\<exists>v. event demo_parse padded_init_line = Some v \<and>
        typeof (getp v (ustr ''session_id'')) = ''string'' \<and>
        ustr ''abc-123'' = trim (string_of (getp v (ustr ''session_id''))))"
proof -
  have e: "getSessionId (run demo_parse all_callbacks [Feed (padded_init_line @ [newline])]) =
     Some (ustr ''abc-123'')"
    by (simp add: run_def evals newline_ustr)
  have c: "session_calls (run demo_parse all_callbacks [Feed (padded_init_line @ [newline])]) =
     [ustr ''abc-123'']"
    by (simp add: run_def evals newline_ustr session_calls_def)
  have n: "getSessionId (run demo_parse all_callbacks []) = None"
    by (simp add: run_def getSessionId_def createStreamJsonParser_def)
  have p: "getSessionId (processLine demo_parse all_callbacks padded_init_line
       (run demo_parse all_callbacks [])) = Some (ustr ''abc-123'')"
    by (simp add: run_def evals)
  show ?thesis
    using e c n p
      session_id_trimmed[of demo_parse all_callbacks "[Feed (padded_init_line @ [newline])]"
        "ustr ''abc-123''"]
      session_id_trimmed[of demo_parse all_callbacks "[]" "ustr ''abc-123''" padded_init_line]
    by simp
qed

section \<open>Collected text\<close>

lemma processLine_parts:
  "collectedTextParts (processLine parse cb line s) =
     collectedTextParts s @
       (case event parse line of
          None \<Rightarrow> []
        | Some v \<Rightarrow> new_text v (collectedTextParts s = []))"
  by (simp add: processLine_event dispatch_parts split: option.splits)

lemma processLine_text_calls:
  "text_calls (processLine parse cb line s) =
     text_calls s @
       (if onText cb
        then (case event parse line of
                None \<Rightarrow> []
              | Some v \<Rightarrow> new_text v (collectedTextParts s = []))
        else [])"
  by (simp add: processLine_event dispatch_text_calls split: option.splits)

lemma delta_not_fallback: "text_delta v = Some t \<Longrightarrow> fallback_text v = None"
  by (auto simp: text_delta_def fallback_text_def split: if_splits)











lemma parts_grow:
  "collectedTextParts s \<noteq> [] \<Longrightarrow> collectedTextParts (fold (processLine parse cb) ls s) \<noteq> []"
  by (induction ls arbitrary: s) (simp_all add: processLine_parts)

text \<open>
  Claim C9. A text delta whose payload is the empty string is recognised: it appends the
  empty string to \<open>collectedTextParts\<close> and calls the text observer with the empty string.
  On a fresh parser the accumulated text is still empty after it. From then on, whatever
  lines follow, a result event with a non-blank result field neither appends its field nor
  calls the text observer: the fallback is off for the rest of the parser's life.
\<close>

theorem empty_delta_disables_fallback:
  assumes "event parse line = Some v" and "text_delta v = Some []"
  shows "collectedTextParts (processLine parse cb line s) = collectedTextParts s @ [[]] \<and>
         text_calls (processLine parse cb line s) =
           text_calls s @ (if onText cb then [[]] else []) \<and>
         getCollectedText (processLine parse cb line createStreamJsonParser) = [] \<and>
         (event parse r = Some w \<and> fallback_text w = Some t \<longrightarrow>
            collectedTextParts (processLine parse cb r
                (fold (processLine parse cb) ls (processLine parse cb line s))) =
              collectedTextParts (fold (processLine parse cb) ls (processLine parse cb line s)) \<and>
            text_calls (processLine parse cb r
                (fold (processLine parse cb) ls (processLine parse cb line s))) =
              text_calls (fold (processLine parse cb) ls (processLine parse cb line s)))"
proof -
  have nt: "new_text v e = [[]]" for e
    using assms(2) by (simp add: new_text_def)
  have a: "collectedTextParts (processLine parse cb line t) = collectedTextParts t @ [[]]" for t
    using assms(1) by (simp add: processLine_parts nt)
  have b: "text_calls (processLine parse cb line s) =
           text_calls s @ (if onText cb then [[]] else [])"
    using assms(1) by (simp add: processLine_text_calls nt)
  have c: "getCollectedText (processLine parse cb line createStreamJsonParser) = []"
    by (simp add: getCollectedText_def a createStreamJsonParser_def)
  have ne: "collectedTextParts (fold (processLine parse cb) ls (processLine parse cb line s)) \<noteq> []"
    by (rule parts_grow) (simp add: a)
  have d: "collectedTextParts (processLine parse cb r
                (fold (processLine parse cb) ls (processLine parse cb line s))) =
              collectedTextParts (fold (processLine parse cb) ls (processLine parse cb line s)) \<and>
            text_calls (processLine parse cb r
                (fold (processLine parse cb) ls (processLine parse cb line s))) =
              text_calls (fold (processLine parse cb) ls (processLine parse cb line s))"
    if "event parse r = Some w" "fallback_text w = Some t"
  proof -
    have "text_delta w = None"
      using that(2) delta_not_fallback[of w] by (cases "text_delta w") auto
    then have "new_text w False = []" using that(2) by (simp add: new_text_def)
    then show ?thesis using that(1) ne by (simp add: processLine_parts processLine_text_calls)
  qed
  show ?thesis using a b c d by blast
qed

theorem empty_delta_disables_fallback_witness:
  "event demo_parse empty_delta_line =
     Some (obj [(''type'', String (ustr ''content_block_delta'')),
                (''delta'', obj [(''type'', String (ustr ''text_delta'')),
                                 (''text'', String [])])]) \<and>
   text_delta (obj [(''type'', String (ustr ''content_block_delta'')),
                (''delta'', obj [(''type'', String (ustr ''text_delta'')),
                                 (''text'', String [])])]) = Some [] \<and>
   collectedTextParts (processLine demo_parse all_callbacks empty_delta_line
       createStreamJsonParser) = [[]] \<and>
   text_calls (processLine demo_parse all_callbacks empty_delta_line
       createStreamJsonParser) = [[]] \<and>
   getCollectedText (processLine demo_parse all_callbacks empty_delta_line
       createStreamJsonParser) = [] \<and>
   fallback_text (obj [(''type'', String (ustr ''result'')),
                (''session_id'', String (ustr ''from-result'')),
                (''result'', String (ustr ''done''))]) = Some (ustr ''done'') \<and>
   collectedTextParts (processLine demo_parse all_callbacks result_line
       (fold (processLine demo_parse all_callbacks) [init_line]
          (processLine demo_parse all_callbacks empty_delta_line createStreamJsonParser))) =
     [[]] \<and>
   text_calls (processLine demo_parse all_callbacks result_line
       (fold (processLine demo_parse all_callbacks) [init_line]
          (processLine demo_parse all_callbacks empty_delta_line createStreamJsonParser))) =
     [[]]"
proof -
  have td: "text_delta (obj [(''type'', String (ustr ''content_block_delta'')),
                (''delta'', obj [(''type'', String (ustr ''text_delta'')),
                                 (''text'', String [])])]) = Some []"
    by (simp add: vocab_evals)
  have fb: "fallback_text (obj [(''type'', String (ustr ''result'')),
                (''session_id'', String (ustr ''from-result'')),
                (''result'', String (ustr ''done''))]) = Some (ustr ''done'')"
    by (simp add: vocab_evals)
  have mid: "collectedTextParts (fold (processLine demo_parse all_callbacks) [init_line]
          (processLine demo_parse all_callbacks empty_delta_line createStreamJsonParser)) = [[]]"
    "text_calls (fold (processLine demo_parse all_callbacks) [init_line]
          (processLine demo_parse all_callbacks empty_delta_line createStreamJsonParser)) = [[]]"
    by (simp_all add: evals text_calls_def)
  have fresh: "collectedTextParts createStreamJsonParser = []"
    "text_calls createStreamJsonParser = []" "onText all_callbacks"
    by (simp_all add: createStreamJsonParser_def text_calls_def all_callbacks_def)
  show ?thesis
    using empty_delta_disables_fallback[OF demo_events(3) td, of all_callbacks
        createStreamJsonParser result_line
        "obj [(''type'', String (ustr ''result'')),
              (''session_id'', String (ustr ''from-result'')),
              (''result'', String (ustr ''done''))]"
        "ustr ''done''" "[init_line]"]
    by (simp add: demo_events td fb mid[simplified] fresh)
qed

end
